theory Spec2Isabelle
  imports Main
begin

section \<open>Python values and library operations used by the analyser\<close>

text \<open>
  The analyser (\<^verbatim>\<open>ats_analyser.py\<close>) and the presentation code (\<^verbatim>\<open>app.py\<close>) work on
  the values that \<^verbatim>\<open>json.loads\<close> produces: \<^verbatim>\<open>None\<close>, booleans, integers, strings,
  lists and dictionaries with string keys. Floating-point numbers are outside the model.
  A dictionary is an association list read with \<open>map_of\<close>.

  A character is a code point below 256, so a string of the model is a Python string over
  that range. Python's integers are unbounded (\<open>int\<close>); the interpreter's configurable
  limit on the length of a decimal literal is not modelled.
\<close>

datatype pyval =
    PNone
  | PBool bool
  | PInt int
  | PStr string
  | PList "pyval list"
  | PDict "(string \<times> pyval) list"

text \<open>
  Every \<^verbatim>\<open>raise\<close> of the two files, and every exception of a built-in operation they can
  reach, is a value of \<open>error\<close>, named after its cause. The program wraps each of them
  into a plain \<^verbatim>\<open>Exception\<close> whose message embeds the cause
  (\<^verbatim>\<open>raise Exception(f"Error processing ATS results: {str(e)}")\<close>), so the cause is what
  distinguishes one failure from another.
\<close>

datatype error =
    JSONDecodeError                \<comment> \<open>\<^verbatim>\<open>json.loads\<close> rejects the text\<close>
  | IndexError                     \<comment> \<open>\<^verbatim>\<open>split()[0]\<close> on a string without a token\<close>
  | InvalidLiteral                 \<comment> \<open>\<^verbatim>\<open>ValueError\<close> of \<^verbatim>\<open>int()\<close>\<close>
  | ScoreOutOfRange string         \<comment> \<open>\<^verbatim>\<open>ValueError(f"{score_field} must be between 0-100")\<close>\<close>
  | MissingRequiredField string    \<comment> \<open>\<^verbatim>\<open>ValueError(f"Missing required field: {field}")\<close>\<close>
  | EmptyInput                     \<comment> \<open>\<^verbatim>\<open>ValueError("Resume text and job description cannot be empty")\<close>\<close>
  | EmptyResponse                  \<comment> \<open>\<^verbatim>\<open>Exception("Empty response received from Gemini")\<close>\<close>
  | NoJsonFound                    \<comment> \<open>\<^verbatim>\<open>Exception("Could not extract valid JSON response")\<close>\<close>
  | TypeError
  | KeyError
  | AttributeError

subsection \<open>Characters: \<^verbatim>\<open>str.isspace\<close>, \<^verbatim>\<open>str.isdigit\<close>, \<^verbatim>\<open>str.isdecimal\<close>\<close>

text \<open>
  Below code point 256 Python's whitespace is TAB, LF, VT, FF, CR, the separators
  0x1C..0x1F, the space, NEL (0x85) and the no-break space (0xA0). \<^verbatim>\<open>str.isdigit\<close> holds
  for the ten decimal digits and for the superscripts two, three and one (0xB2, 0xB3,
  0xB9); \<^verbatim>\<open>int()\<close> accepts only the decimal digits.
\<close>

definition isspace :: "char \<Rightarrow> bool" where
  "isspace c \<longleftrightarrow> c \<in> set [CHR 0x09, CHR 0x0A, CHR 0x0B, CHR 0x0C, CHR 0x0D,
                         CHR 0x1C, CHR 0x1D, CHR 0x1E, CHR 0x1F, CHR 0x20, CHR 0x85, CHR 0xA0]"

definition isdecimal :: "char \<Rightarrow> bool" where
  "isdecimal c \<longleftrightarrow> c \<in> set ''0123456789''"

definition isdigit :: "char \<Rightarrow> bool" where
  "isdigit c \<longleftrightarrow> isdecimal c \<or> c \<in> set [CHR 0xB2, CHR 0xB3, CHR 0xB9]"

subsection \<open>\<^verbatim>\<open>str.split()\<close>, \<^verbatim>\<open>str.strip()\<close>, \<^verbatim>\<open>int()\<close>, \<^verbatim>\<open>str()\<close>\<close>

text \<open>
  \<^verbatim>\<open>s.split()\<close> scans the string from the left: whitespace ends the token being read
  (an empty one is not kept), any other character extends it.
\<close>

fun split_from :: "string \<Rightarrow> string \<Rightarrow> string list" where
  "split_from tok [] = (if tok = [] then [] else [tok])"
| "split_from tok (c # cs) =
     (if isspace c then (if tok = [] then split_from [] cs else tok # split_from [] cs)
      else split_from (tok @ [c]) cs)"

definition split :: "string \<Rightarrow> string list" where
  "split s = split_from [] s"

definition strip :: "string \<Rightarrow> string" where
  "strip s = rev (dropWhile isspace (rev (dropWhile isspace s)))"

text \<open>The value of a string of decimal digits, most significant digit first.\<close>

definition digit_val :: "char \<Rightarrow> int" where
  "digit_val c = int (of_char c) - 48"

definition decimal_value :: "string \<Rightarrow> int" where
  "decimal_value ds = foldl (\<lambda>acc c. 10 * acc + digit_val c) 0 ds"

text \<open>
  \<^verbatim>\<open>int(''.join(filter(str.isdigit, tok)))\<close>: the characters of \<open>tok\<close> that satisfy
  \<^verbatim>\<open>str.isdigit\<close> are kept, in order, and \<^verbatim>\<open>int()\<close> reads them. On such a string
  \<^verbatim>\<open>int()\<close> raises \<^verbatim>\<open>ValueError\<close> when the string is empty or holds a digit that is not
  decimal.
\<close>

definition int_of_digits :: "string \<Rightarrow> error + int" where
  "int_of_digits tok =
     (let ds = filter isdigit tok
      in if ds = [] \<or> \<not> list_all isdecimal ds then Inl InvalidLiteral
         else Inr (decimal_value ds))"

text \<open>
  \<^verbatim>\<open>int(''.join(filter(str.isdigit, score_text.split()[0])))\<close>: the subscript raises
  \<^verbatim>\<open>IndexError\<close> when the text has no token.
\<close>

definition first_token :: "string \<Rightarrow> error + string" where
  "first_token score_text = (case split score_text of [] \<Rightarrow> Inl IndexError | tok # _ \<Rightarrow> Inr tok)"

text \<open>
  \<^verbatim>\<open>str(v)\<close> is \<open>v\<close> itself for a string. For every other value it is the value's
  \<^verbatim>\<open>repr\<close>, a library function the model takes as the parameter \<open>repr\<close>.
\<close>

definition py_str :: "(pyval \<Rightarrow> string) \<Rightarrow> pyval \<Rightarrow> string" where
  "py_str repr v = (case v of PStr s \<Rightarrow> s | _ \<Rightarrow> repr v)"

subsection \<open>Membership, subscript and \<^verbatim>\<open>get\<close>\<close>

fun is_substring :: "string \<Rightarrow> string \<Rightarrow> bool" where
  "is_substring p [] = (p = [])"
| "is_substring p (c # cs) = (take (length p) (c # cs) = p \<or> is_substring p cs)"

text \<open>
  \<^verbatim>\<open>field in data\<close> for a string \<open>field\<close>: a key test on a dictionary, an element test on a
  list, a substring test on a string, and a \<^verbatim>\<open>TypeError\<close> on \<^verbatim>\<open>None\<close>, a boolean or an
  integer.
\<close>

definition py_contains :: "string \<Rightarrow> pyval \<Rightarrow> error + bool" where
  "py_contains field data =
     (case data of
        PDict kvs \<Rightarrow> Inr (map_of kvs field \<noteq> None)
      | PList xs \<Rightarrow> Inr (PStr field \<in> set xs)
      | PStr s \<Rightarrow> Inr (is_substring field s)
      | _ \<Rightarrow> Inl TypeError)"

text \<open>\<^verbatim>\<open>data[field]\<close> for a string \<open>field\<close>.\<close>

definition py_getitem :: "pyval \<Rightarrow> string \<Rightarrow> error + pyval" where
  "py_getitem data field =
     (case data of
        PDict kvs \<Rightarrow> (case map_of kvs field of None \<Rightarrow> Inl KeyError | Some v \<Rightarrow> Inr v)
      | _ \<Rightarrow> Inl TypeError)"

text \<open>\<^verbatim>\<open>data.get(key, default)\<close>: only a dictionary has the method.\<close>

definition py_get :: "pyval \<Rightarrow> string \<Rightarrow> pyval \<Rightarrow> error + pyval" where
  "py_get data key dflt =
     (case data of
        PDict kvs \<Rightarrow> Inr (case map_of kvs key of None \<Rightarrow> dflt | Some v \<Rightarrow> v)
      | _ \<Rightarrow> Inl AttributeError)"

text \<open>Sequencing: an exception ends the computation.\<close>

definition and_then :: "error + 'a \<Rightarrow> ('a \<Rightarrow> error + 'b) \<Rightarrow> error + 'b" where
  "and_then r f = (case r of Inl e \<Rightarrow> Inl e | Inr x \<Rightarrow> f x)"

text \<open>
  \<^verbatim>\<open>json.loads(x) if isinstance(x, str) else x\<close>, with \<^verbatim>\<open>json.loads\<close> the parameter
  \<open>loads\<close> (\<open>None\<close> when it raises \<^verbatim>\<open>JSONDecodeError\<close>).
\<close>

definition load_if_str :: "(string \<Rightarrow> pyval option) \<Rightarrow> pyval \<Rightarrow> error + pyval" where
  "load_if_str loads x =
     (case x of
        PStr s \<Rightarrow> (case loads s of None \<Rightarrow> Inl JSONDecodeError | Some d \<Rightarrow> Inr d)
      | _ \<Rightarrow> Inr x)"

section \<open>The result validator: \<^verbatim>\<open>process_ats_results\<close>\<close>

text \<open>
  The expression \<^verbatim>\<open>int(''.join(filter(str.isdigit, score_text.split()[0])))\<close>, which the
  validator, the score card and the report each apply to the text of a score.
\<close>

definition score_number :: "string \<Rightarrow> error + int" where
  "score_number score_text =
     (case first_token score_text of Inl e \<Rightarrow> Inl e | Inr tok \<Rightarrow> int_of_digits tok)"

text \<open>
  Lines 176-177 of \<^verbatim>\<open>ats_analyser.py\<close>: \<^verbatim>\<open>score_text = str(data[score_field])\<close> and the
  number \<^verbatim>\<open>score_value\<close> read from it.
\<close>

definition score_value_of :: "(pyval \<Rightarrow> string) \<Rightarrow> pyval \<Rightarrow> string \<Rightarrow> error + int" where
  "score_value_of repr data score_field =
     and_then (py_getitem data score_field) (\<lambda>v. score_number (py_str repr v))"

text \<open>The body of the loop over the two score fields (lines 174-179).\<close>

definition check_score_field :: "(pyval \<Rightarrow> string) \<Rightarrow> pyval \<Rightarrow> string \<Rightarrow> error + unit" where
  "check_score_field repr data score_field =
     (case py_contains score_field data of
        Inl e \<Rightarrow> Inl e
      | Inr False \<Rightarrow> Inr ()
      | Inr True \<Rightarrow>
          (case score_value_of repr data score_field of
             Inl e \<Rightarrow> Inl e
           | Inr score_value \<Rightarrow>
               if \<not> (0 \<le> score_value \<and> score_value \<le> 100)
               then Inl (ScoreOutOfRange score_field)
               else Inr ()))"

fun check_score_fields :: "(pyval \<Rightarrow> string) \<Rightarrow> pyval \<Rightarrow> string list \<Rightarrow> error + unit" where
  "check_score_fields repr data [] = Inr ()"
| "check_score_fields repr data (f # fs) =
     (case check_score_field repr data f of
        Inl e \<Rightarrow> Inl e
      | Inr _ \<Rightarrow> check_score_fields repr data fs)"

definition score_fields :: "string list" where
  "score_fields = [''JD Match'', ''ATSScore'']"

definition process_ats_results ::
  "(string \<Rightarrow> pyval option) \<Rightarrow> (pyval \<Rightarrow> string) \<Rightarrow> pyval \<Rightarrow> error + pyval" where
  "process_ats_results loads repr response_json =
     (case load_if_str loads response_json of
        Inl e \<Rightarrow> Inl e
      | Inr data \<Rightarrow>
          (case check_score_fields repr data score_fields of
             Inl e \<Rightarrow> Inl e
           | Inr _ \<Rightarrow> Inr data))"

section \<open>The action plan: \<^verbatim>\<open>generate_action_plan\<close>\<close>

record action_plan =
  immediate_actions :: pyval
  keyword_integration :: pyval
  missing_keywords :: pyval
  skill_gaps :: pyval
  red_flags_to_fix :: pyval
  competitive_edge :: pyval

text \<open>\<^verbatim>\<open>data.get(outer, {}).get(inner, default)\<close>\<close>

definition get_nested :: "pyval \<Rightarrow> string \<Rightarrow> string \<Rightarrow> pyval \<Rightarrow> error + pyval" where
  "get_nested data outer inner dflt =
     and_then (py_get data outer (PDict [])) (\<lambda>sub. py_get sub inner dflt)"

text \<open>The entries of the dictionary literal are evaluated in the order they are written.\<close>

definition generate_action_plan ::
  "(string \<Rightarrow> pyval option) \<Rightarrow> pyval \<Rightarrow> error + action_plan" where
  "generate_action_plan loads ats_results =
     and_then (load_if_str loads ats_results) (\<lambda>data.
     and_then (get_nested data ''Recommendations'' ''HighPriority'' (PList [])) (\<lambda>ia.
     and_then (get_nested data ''Recommendations'' ''KeywordOptimization'' (PList [])) (\<lambda>ki.
     and_then (py_get data ''MissingKeywords'' (PList [])) (\<lambda>mk.
     and_then (get_nested data ''SkillsAlignment'' ''GapAnalysis'' (PStr [])) (\<lambda>sg.
     and_then (py_get data ''RedFlags'' (PList [])) (\<lambda>rf.
     and_then (py_get data ''CompetitiveAdvantage'' (PStr [])) (\<lambda>ce.
       Inr \<lparr>immediate_actions = ia, keyword_integration = ki, missing_keywords = mk,
            skill_gaps = sg, red_flags_to_fix = rf, competitive_edge = ce\<rparr>)))))))"

section \<open>The score card and the report's score table (\<^verbatim>\<open>app.py\<close>)\<close>

record score_card =
  match_num :: int
  match_color :: string
  ats_num :: int
  ats_color :: string

text \<open>
  The expression of lines 38, 48, 264 and 265 of \<^verbatim>\<open>app.py\<close>, the same at the four places
  up to the name of the variable:
  \<^verbatim>\<open>int(''.join(filter(str.isdigit, str(x).split()[0]))) if x != "N/A" else 0\<close>.
\<close>

definition score_or_zero :: "(pyval \<Rightarrow> string) \<Rightarrow> pyval \<Rightarrow> error + int" where
  "score_or_zero repr x = (if x \<noteq> PStr ''N/A'' then score_number (py_str repr x) else Inr 0)"

text \<open>
  \<^verbatim>\<open>display_score_card(match_score, ats_score)\<close>, lines 38-49: the two numbers and the two
  colours it computes. The widgets it draws are not modelled.
\<close>

definition display_score_card :: "(pyval \<Rightarrow> string) \<Rightarrow> pyval \<Rightarrow> pyval \<Rightarrow> error + score_card" where
  "display_score_card repr match_score ats_score =
     and_then (score_or_zero repr match_score) (\<lambda>m_num.
     and_then (score_or_zero repr ats_score) (\<lambda>a_num.
       Inr \<lparr>match_num = m_num,
            match_color = (if m_num \<ge> 70 then ''green'' else if m_num \<ge> 50 then ''orange'' else ''red''),
            ats_num = a_num,
            ats_color = (if a_num \<ge> 80 then ''green'' else if a_num \<ge> 60 then ''orange'' else ''red'')\<rparr>))"


record score_row =
  metric :: string
  score :: int
  status :: string

text \<open>
  The two data rows of \<^verbatim>\<open>score_data\<close> in \<^verbatim>\<open>generate_pdf_report(results, action_plan)\<close>,
  lines 260-271. The Score cell prints the number followed by a percent sign.
\<close>

definition report_score_rows :: "(pyval \<Rightarrow> string) \<Rightarrow> pyval \<Rightarrow> error + score_row list" where
  "report_score_rows repr results =
     and_then (py_get results ''JD Match'' (PStr ''N/A'')) (\<lambda>match_score.
     and_then (py_get results ''ATSScore'' (PStr ''N/A'')) (\<lambda>ats_score.
     and_then (score_or_zero repr match_score) (\<lambda>m_num.
     and_then (score_or_zero repr ats_score) (\<lambda>a_num.
       Inr [\<lparr>metric = ''Job Description Match'', score = m_num,
             status = (if m_num \<ge> 70 then ''Excellent'' else if m_num \<ge> 50 then ''Good''
                       else ''Needs Improvement'')\<rparr>,
            \<lparr>metric = ''ATS Optimization Score'', score = a_num,
             status = (if a_num \<ge> 80 then ''Excellent'' else if a_num \<ge> 60 then ''Good''
                       else ''Needs Improvement'')\<rparr>]))))"

section \<open>The model client: \<^verbatim>\<open>get_gemini_response\<close>\<close>

text \<open>
  \<^verbatim>\<open>re.search(r'\{.*\}', text, re.DOTALL)\<close>. With \<^verbatim>\<open>DOTALL\<close> the dot matches every
  character. The search tries the start positions from the left; at an opening brace the
  greedy star takes the rest of the text and gives characters back until a closing brace
  ends the match.
\<close>

fun upto_last_close :: "string \<Rightarrow> string option" where
  "upto_last_close [] = None"
| "upto_last_close (c # cs) =
     (case upto_last_close cs of
        Some r \<Rightarrow> Some (c # r)
      | None \<Rightarrow> if c = CHR ''}'' then Some [c] else None)"

fun search_braces :: "string \<Rightarrow> string option" where
  "search_braces [] = None"
| "search_braces (c # cs) =
     (if c = CHR ''{'' then
        (case upto_last_close cs of Some r \<Rightarrow> Some (c # r) | None \<Rightarrow> search_braces cs)
      else search_braces cs)"

definition required_fields :: "string list" where
  "required_fields = [''JD Match'', ''MissingKeywords'', ''Profile Summary'',
                      ''SkillsAlignment'', ''ExperienceMatch'', ''Recommendations'', ''ATSScore'']"

fun check_required :: "pyval \<Rightarrow> string list \<Rightarrow> error + unit" where
  "check_required response_json [] = Inr ()"
| "check_required response_json (field # rest) =
     (case py_contains field response_json of
        Inl e \<Rightarrow> Inl e
      | Inr True \<Rightarrow> check_required response_json rest
      | Inr False \<Rightarrow> Inl (MissingRequiredField field))"

text \<open>
  The function from the text of the model's response on (lines 19-44); the call of the
  service is outside the model. \<open>None\<close> is a response without text.
\<close>

definition get_gemini_response ::
  "(string \<Rightarrow> pyval option) \<Rightarrow> string option \<Rightarrow> error + string" where
  "get_gemini_response loads response =
     (case response of
        None \<Rightarrow> Inl EmptyResponse
      | Some text \<Rightarrow>
          if text = [] then Inl EmptyResponse
          else (case loads text of
                  Some response_json \<Rightarrow>
                    (case check_required response_json required_fields of
                       Inl e \<Rightarrow> Inl e
                     | Inr _ \<Rightarrow> Inr text)
                | None \<Rightarrow>
                    (case search_braces text of
                       Some m \<Rightarrow> Inr m
                     | None \<Rightarrow> Inl NoJsonFound)))"

section \<open>The prompt builder: \<^verbatim>\<open>prepare_prompt\<close>\<close>

fun join_lines :: "string list \<Rightarrow> string" where
  "join_lines [] = []"
| "join_lines [l] = l"
| "join_lines (l # ls) = l @ CHR 0x0A # join_lines ls"

text \<open>
  The template, line by line, cut at the two placeholders; \<^verbatim>\<open>str.format\<close> turns each
  doubled brace of the template into a single one.
\<close>

definition prompt_before_resume :: string where
  \<open>prompt_before_resume = join_lines
    [[],
     ''    Act as a senior ATS (Applicant Tracking System) specialist and career consultant with 15+ years of experience in:'',
     ''    - Technical recruitment and talent acquisition'',
     ''    - Software engineering, DevOps, and cloud technologies'',
     ''    - Data science, machine learning, and AI'',
     ''    - Data analysis and business intelligence'',
     ''    - Big data engineering and distributed systems'',
     ''    - Product management and technical leadership'',
     ''    '',
     ''    You understand how modern ATS systems work, including keyword matching algorithms, '',
     ''    semantic analysis, and ranking mechanisms used by companies like Google, Amazon, Microsoft, and Fortune 500 firms.'',
     ''    '',
     ''    ANALYSIS TASK:'',
     ''    Perform a comprehensive evaluation of the following resume against the job description. '',
     ''    Consider the highly competitive job market and provide actionable insights for optimization.'',
     ''    '',
     ''    RESUME CONTENT:'',
     ''    '']\<close>

definition prompt_between :: string where
  \<open>prompt_between = join_lines
    [[],
     ''    '',
     ''    JOB DESCRIPTION:'',
     ''    '']\<close>

definition prompt_after_job :: string where
  \<open>prompt_after_job = join_lines
    [[],
     ''    '',
     ''    EVALUATION CRITERIA:'',
     ''    1. Keyword density and relevance matching'',
     ''    2. Skills alignment with job requirements'',
     ''    3. Experience level and domain expertise'',
     ''    4. Education and certification relevance'',
     ''    5. ATS-friendliness (formatting, structure, parsing)'',
     ''    6. Achievement quantification and impact demonstration'',
     ''    7. Industry-specific terminology usage'',
     ''    8. Role progression and career trajectory'',
     ''    '',
     ''    Provide your analysis in the following JSON format ONLY (no additional text):'',
     ''    {'',
     ''        "JD Match": "percentage score between 0-100 with brief justification",'',
     ''        "ATSScore": "ATS parsing and keyword optimization score (0-100)",'',
     ''        "MissingKeywords": ['',
     ''            "critical technical keywords not found in resume",'',
     ''            "include both hard and soft skills",'',
     ''            "prioritize by importance to the role"'',
     ''        ],'',
     ''        "SkillsAlignment": {'',
     ''            "MatchedSkills": ["skills that align well with JD"],'',
     ''            "PartiallyMatched": ["skills with some relevance"],'',
     ''            "GapAnalysis": "detailed analysis of skill gaps"'',
     ''        },'',
     ''        "ExperienceMatch": {'',
     ''            "RelevantExperience": "assessment of relevant experience years and domains",'',
     ''            "LevelAlignment": "junior/mid/senior level match analysis",'',
     ''            "IndustryFit": "industry background compatibility assessment"'',
     ''        },'',
     ''        "Profile Summary": "comprehensive 3-4 sentence analysis covering overall match quality, strongest selling points, and competitive positioning",'',
     ''        "Recommendations": {'',
     ''            "HighPriority": ['',
     ''                "most critical improvements for immediate implementation",'',
     ''                "focus on top 3-5 actionable items"'',
     ''            ],'',
     ''            "MediumPriority": ['',
     ''                "important enhancements for better positioning",'',
     ''                "include formatting and structure improvements"'',
     ''            ],'',
     ''            "KeywordOptimization": ['',
     ''                "specific phrases and terms to incorporate naturally",'',
     ''                "suggest placement strategies (summary, skills, experience)"'',
     ''            ],'',
     ''            "QuantificationOpportunities": ['',
     ''                "areas where metrics and numbers should be added",'',
     ''                "suggest specific types of achievements to highlight"'',
     ''            ]'',
     ''        },'',
     ''        "RedFlags": ['',
     ''            "potential issues that might cause automatic rejection",'',
     ''            "formatting or content problems for ATS parsing"'',
     ''        ],'',
     ''        "CompetitiveAdvantage": "unique strengths and differentiators to emphasize"'',
     ''    }'',
     ''    '',
     ''    IMPORTANT NOTES:'',
     ''    - Be specific and actionable in recommendations'',
     ''    - Consider both ATS optimization and human reviewer appeal'',
     ''    - Focus on realistic improvements rather than complete rewrites'',
     ''    - Prioritize changes that provide maximum impact'',
     ''    - Consider current market trends and in-demand skills'',
     ''    '']\<close>

definition prepare_prompt :: "string \<Rightarrow> string \<Rightarrow> error + string" where
  "prepare_prompt resume_text job_description =
     (if resume_text = [] \<or> job_description = [] then Inl EmptyInput
      else Inr (prompt_before_resume @ strip resume_text @ prompt_between
                @ strip job_description @ prompt_after_job))"

section \<open>Notions of the specification\<close>

text \<open>
  The definitions of this section follow the words of the specification; the theorems
  below compare them with the functions above.
\<close>

text \<open>A field of a mapping that is absent, or present and itself a mapping.\<close>

definition is_dict :: "pyval \<Rightarrow> bool" where
  "is_dict v = (case v of PDict _ \<Rightarrow> True | _ \<Rightarrow> False)"

definition absent_or_dict :: "(string \<times> pyval) list \<Rightarrow> string \<Rightarrow> bool" where
  "absent_or_dict kvs k = (case map_of kvs k of None \<Rightarrow> True | Some v \<Rightarrow> is_dict v)"

text \<open>
  The source field, or the default when the field is absent; for a field of a nested
  record, the default also when the parent record is absent.
\<close>

definition field_or :: "(string \<times> pyval) list \<Rightarrow> string \<Rightarrow> pyval \<Rightarrow> pyval" where
  "field_or kvs k dflt = (case map_of kvs k of None \<Rightarrow> dflt | Some v \<Rightarrow> v)"

definition nested_field_or ::
  "(string \<times> pyval) list \<Rightarrow> string \<Rightarrow> string \<Rightarrow> pyval \<Rightarrow> pyval" where
  "nested_field_or kvs parent k dflt =
     (case map_of kvs parent of
        None \<Rightarrow> dflt
      | Some (PDict sub) \<Rightarrow> field_or sub k dflt
      | Some _ \<Rightarrow> dflt)"

text \<open>A score whose number can be read and lies in the range 0 to 100.\<close>

definition valid_score :: "(pyval \<Rightarrow> string) \<Rightarrow> pyval \<Rightarrow> bool" where
  "valid_score repr v =
     (case score_number (py_str repr v) of Inl e \<Rightarrow> False | Inr n \<Rightarrow> 0 \<le> n \<and> n \<le> 100)"

text \<open>
  The substring of a text from its first opening brace to its last closing brace, when
  the first opening brace comes before the last closing brace.
\<close>

definition find_first :: "char \<Rightarrow> string \<Rightarrow> nat option" where
  "find_first c s = (if c \<in> set s then Some (length (takeWhile (\<lambda>x. x \<noteq> c) s)) else None)"

definition find_last :: "char \<Rightarrow> string \<Rightarrow> nat option" where
  "find_last c s =
     (if c \<in> set s then Some (length s - 1 - length (takeWhile (\<lambda>x. x \<noteq> c) (rev s))) else None)"

definition brace_region :: "string \<Rightarrow> string option" where
  "brace_region text =
     (case find_first (CHR ''{'') text of
        None \<Rightarrow> None
      | Some i \<Rightarrow>
          (case find_last (CHR ''}'') text of
             None \<Rightarrow> None
           | Some j \<Rightarrow> if i < j then Some (take (j + 1 - i) (drop i text)) else None))"







section \<open>Properties of the library operations\<close>

lemma isdecimal_isdigit: "isdecimal c \<Longrightarrow> isdigit c"
  by (simp add: isdigit_def)

lemma isdecimal_not_space: "isdecimal c \<Longrightarrow> \<not> isspace c"
  by (auto simp: isdecimal_def isspace_def)

lemma isdigit_not_space: "isdigit c \<Longrightarrow> \<not> isspace c"
  by (auto simp: isdigit_def isdecimal_def isspace_def)

lemma split_from_token:
  "tok \<noteq> [] \<Longrightarrow>
   split_from tok s =
     (tok @ takeWhile (\<lambda>c. \<not> isspace c) s) # split_from [] (dropWhile (\<lambda>c. \<not> isspace c) s)"
  by (induction s arbitrary: tok) auto

lemma split_from_start:
  "split_from [] s =
     (case dropWhile isspace s of
        [] \<Rightarrow> []
      | c # cs \<Rightarrow> (c # takeWhile (\<lambda>c. \<not> isspace c) cs)
                  # split_from [] (dropWhile (\<lambda>c. \<not> isspace c) cs))"
proof (induction s)
  case Nil
  show ?case by simp
next
  case (Cons a s)
  show ?case
  proof (cases "isspace a")
    case True
    with Cons show ?thesis by simp
  next
    case False
    then show ?thesis using split_from_token [of "[a]" s] by simp
  qed
qed

lemma first_token_eq:
  "first_token s =
     (case dropWhile isspace s of
        [] \<Rightarrow> Inl IndexError
      | c # cs \<Rightarrow> Inr (c # takeWhile (\<lambda>c. \<not> isspace c) cs))"
proof (cases "dropWhile isspace s")
  case Nil
  then show ?thesis
    unfolding first_token_def split_def by (subst split_from_start) (simp only: list.case)
next
  case (Cons c cs)
  then show ?thesis
    unfolding first_token_def split_def by (subst split_from_start) (simp only: list.case)
qed

lemma first_token_shape:
  assumes ws: "list_all isspace ws"
    and tok: "tok \<noteq> []" "list_all (\<lambda>c. \<not> isspace c) tok"
    and rest: "rest = [] \<or> isspace (hd rest)"
  shows "first_token (ws @ tok @ rest) = Inr tok"
proof -
  obtain c cs where t: "tok = c # cs" using tok(1) by (cases tok) auto
  have d: "dropWhile isspace (ws @ tok @ rest) = tok @ rest"
    using ws tok(2) t by (simp add: dropWhile_append3 list_all_iff dropWhile_append)
  have nc: "\<forall>x\<in>set cs. \<not> isspace x" using tok(2) t by (simp add: list_all_iff)
  have "takeWhile (\<lambda>c. \<not> isspace c) (cs @ rest) = cs"
  proof (cases rest)
    case Nil
    with nc show ?thesis by simp
  next
    case (Cons r rs)
    with rest have "isspace r" by simp
    with nc Cons show ?thesis by simp
  qed
  then show ?thesis using d t by (simp add: first_token_eq)
qed

lemma int_of_digits_run:
  assumes "d \<noteq> []" "list_all isdecimal d" "list_all (\<lambda>c. \<not> isdigit c) r"
  shows "int_of_digits (d @ r) = Inr (decimal_value d)"
proof -
  have "filter isdigit d = d"
    using assms(2) by (simp add: list_all_iff isdecimal_isdigit)
  moreover have "filter isdigit r = []"
    using assms(3) by (simp add: list_all_iff)
  ultimately show ?thesis using assms(1,2) by (simp add: int_of_digits_def)
qed


lemma score_number_run:
  assumes "first_token s = Inr (d @ r)" "d \<noteq> []" "list_all isdecimal d"
    "list_all (\<lambda>c. \<not> isdigit c) r"
  shows "score_number s = Inr (decimal_value d)"
  using assms by (simp add: score_number_def int_of_digits_run)

lemma first_token_subset: "first_token s = Inr tok \<Longrightarrow> set tok \<subseteq> set s"
proof -
  assume a: "first_token s = Inr tok"
  obtain c cs where d: "dropWhile isspace s = c # cs" and t: "tok = c # takeWhile (\<lambda>c. \<not> isspace c) cs"
    using a by (auto simp: first_token_eq split: list.splits)
  have "set (c # cs) \<subseteq> set s" using d set_dropWhileD by (metis subsetI)
  moreover have "set (takeWhile (\<lambda>c. \<not> isspace c) cs) \<subseteq> set cs"
    using set_takeWhileD by (metis subsetI)
  ultimately show ?thesis using t by auto
qed

lemma score_number_Inr:
  "score_number s = Inr n \<Longrightarrow>
   \<exists>tok. first_token s = Inr tok \<and> filter isdigit tok \<noteq> [] \<and> n = decimal_value (filter isdigit tok)"
  by (auto simp: score_number_def int_of_digits_def Let_def split: sum.splits if_splits)

lemma score_number_sentinel: "score_number ''N/A'' = Inl InvalidLiteral"
  by (simp add: score_number_def first_token_def split_def isspace_def int_of_digits_def
      isdigit_def isdecimal_def)

lemma score_number_no_digit:
  assumes "\<forall>c\<in>set s. \<not> isdigit c"
  shows "\<exists>e. score_number s = Inl e"
proof (cases "first_token s")
  case (Inl e)
  then show ?thesis by (simp add: score_number_def)
next
  case (Inr tok)
  then have "set tok \<subseteq> set s" by (rule first_token_subset)
  with assms have "filter isdigit tok = []" by (auto simp: filter_empty_conv)
  with Inr show ?thesis by (simp add: score_number_def int_of_digits_def)
qed

lemma score_or_zero_valid:
  "score_number (py_str repr v) = Inr n \<Longrightarrow> score_or_zero repr v = Inr n"
  using score_number_sentinel by (auto simp: score_or_zero_def py_str_def)

lemma decimal_value_nonneg_aux:
  "list_all isdecimal ds \<Longrightarrow> 0 \<le> a \<Longrightarrow> 0 \<le> foldl (\<lambda>acc c. 10 * acc + digit_val c) a ds"
proof (induction ds arbitrary: a)
  case Nil
  then show ?case by simp
next
  case (Cons c ds)
  have "0 \<le> digit_val c" using Cons.prems(1) by (auto simp: isdecimal_def digit_val_def)
  with Cons show ?case by simp
qed

lemma score_number_nonneg: "score_number s = Inr n \<Longrightarrow> 0 \<le> n"
  by (auto simp: score_number_def int_of_digits_def Let_def decimal_value_def
      decimal_value_nonneg_aux split: sum.splits if_splits)


lemma score_or_zero_sentinel: "score_or_zero repr (PStr ''N/A'') = Inr 0"
  by (simp add: score_or_zero_def)

lemma display_score_card_Inr:
  assumes "score_or_zero repr ms = Inr m" "score_or_zero repr as = Inr a"
  shows "\<exists>sc. display_score_card repr ms as = Inr sc \<and> match_num sc = m \<and> ats_num sc = a"
  using assms by (simp add: display_score_card_def and_then_def)

lemma report_score_rows_Inr:
  assumes "score_or_zero repr (case map_of kvs ''JD Match'' of None \<Rightarrow> PStr ''N/A'' | Some v \<Rightarrow> v) = Inr m"
    "score_or_zero repr (case map_of kvs ''ATSScore'' of None \<Rightarrow> PStr ''N/A'' | Some v \<Rightarrow> v) = Inr a"
  shows "\<exists>r1 r2. report_score_rows repr (PDict kvs) = Inr [r1, r2] \<and> score r1 = m \<and> score r2 = a"
  using assms by (simp add: report_score_rows_def py_get_def and_then_def)

lemma score_value_of_dict:
  "score_value_of repr (PDict kvs) f =
     (case map_of kvs f of None \<Rightarrow> Inl KeyError | Some v \<Rightarrow> score_number (py_str repr v))"
  by (simp add: score_value_of_def py_getitem_def and_then_def split: option.splits)
lemma decimal_value_45: "decimal_value ''45'' = 45"
  by (simp add: decimal_value_def digit_val_def)

section \<open>Extraction of the score number\<close>

text \<open>
  Claim C1, as amended. For every score string whose first whitespace-delimited token is
  a non-empty run \<open>d\<close> of decimal digits followed only by characters that are not
  digits, the validator, the score card and the report all extract \<open>int(d)\<close>. For the
  sentinel "N/A" the score card and the report extract 0, whereas the validator rejects
  it; and the validator rejects every string that holds no digit: no number is extracted
  from it.
\<close>

theorem score_of_leading_digit_run:
  assumes "first_token s = Inr (d @ r)" "d \<noteq> []" "list_all isdecimal d"
    "list_all (\<lambda>c. \<not> isdigit c) r"
  shows "(map_of kvs f = Some (PStr s) \<longrightarrow> score_value_of repr (PDict kvs) f = Inr (decimal_value d))
    \<and> (\<exists>sc. display_score_card repr (PStr s) (PStr ''N/A'') = Inr sc
          \<and> match_num sc = decimal_value d \<and> ats_num sc = 0)
    \<and> (\<exists>sc. display_score_card repr (PStr ''N/A'') (PStr s) = Inr sc
          \<and> match_num sc = 0 \<and> ats_num sc = decimal_value d)
    \<and> (\<exists>r1 r2. report_score_rows repr (PDict [(''JD Match'', PStr s), (''ATSScore'', PStr ''N/A'')])
                  = Inr [r1, r2] \<and> score r1 = decimal_value d \<and> score r2 = 0)
    \<and> (\<exists>r1 r2. report_score_rows repr (PDict [(''JD Match'', PStr ''N/A''), (''ATSScore'', PStr s)])
                  = Inr [r1, r2] \<and> score r1 = 0 \<and> score r2 = decimal_value d)
    \<and> (map_of kvs f = Some (PStr ''N/A'') \<longrightarrow> score_value_of repr (PDict kvs) f = Inl InvalidLiteral)
    \<and> ((\<forall>c\<in>set t. \<not> isdigit c) \<and> map_of kvs f = Some (PStr t)
          \<longrightarrow> (\<exists>e. score_value_of repr (PDict kvs) f = Inl e))"
proof -
  have n: "score_number s = Inr (decimal_value d)" using assms by (rule score_number_run)
  then have z: "score_or_zero repr (PStr s) = Inr (decimal_value d)"
    by (simp add: score_or_zero_valid py_str_def)
  have validator: "map_of kvs f = Some (PStr s) \<longrightarrow> score_value_of repr (PDict kvs) f = Inr (decimal_value d)"
    using n by (simp add: score_value_of_dict py_str_def)
  have card1: "\<exists>sc. display_score_card repr (PStr s) (PStr ''N/A'') = Inr sc
          \<and> match_num sc = decimal_value d \<and> ats_num sc = 0"
    using z score_or_zero_sentinel by (rule display_score_card_Inr)
  have card2: "\<exists>sc. display_score_card repr (PStr ''N/A'') (PStr s) = Inr sc
          \<and> match_num sc = 0 \<and> ats_num sc = decimal_value d"
    using score_or_zero_sentinel z by (rule display_score_card_Inr)
  have rep1: "\<exists>r1 r2. report_score_rows repr (PDict [(''JD Match'', PStr s), (''ATSScore'', PStr ''N/A'')])
                  = Inr [r1, r2] \<and> score r1 = decimal_value d \<and> score r2 = 0"
    by (rule report_score_rows_Inr) (simp_all add: z score_or_zero_sentinel)
  have rep2: "\<exists>r1 r2. report_score_rows repr (PDict [(''JD Match'', PStr ''N/A''), (''ATSScore'', PStr s)])
                  = Inr [r1, r2] \<and> score r1 = 0 \<and> score r2 = decimal_value d"
    by (rule report_score_rows_Inr) (simp_all add: z score_or_zero_sentinel)
  have sentinel: "map_of kvs f = Some (PStr ''N/A'') \<longrightarrow> score_value_of repr (PDict kvs) f = Inl InvalidLiteral"
    by (simp add: score_value_of_dict py_str_def score_number_sentinel)
  have nodigit: "(\<forall>c\<in>set t. \<not> isdigit c) \<and> map_of kvs f = Some (PStr t)
          \<longrightarrow> (\<exists>e. score_value_of repr (PDict kvs) f = Inl e)"
    using score_number_no_digit [of t] by (auto simp: score_value_of_dict py_str_def)
  from validator card1 card2 rep1 rep2 sentinel nodigit show ?thesis by blast
qed

theorem score_of_leading_digit_run_witness:
  "first_token ''45% - weak alignment'' = Inr (''45'' @ ''%'')
   \<and> score_value_of (\<lambda>v. []) (PDict [(''JD Match'', PStr ''45% - weak alignment'')]) ''JD Match'' = Inr 45
   \<and> (\<exists>sc. display_score_card (\<lambda>v. []) (PStr ''45% - weak alignment'') (PStr ''N/A'') = Inr sc
          \<and> match_num sc = 45 \<and> ats_num sc = 0)"
proof -
  have tok: "first_token ''45% - weak alignment'' = Inr (''45'' @ ''%'')"
    by (simp add: first_token_def split_def isspace_def)
  have d: "''45'' \<noteq> []" "list_all isdecimal ''45''" "list_all (\<lambda>c. \<not> isdigit c) ''%''"
    by (simp_all add: isdecimal_def isdigit_def)
  show ?thesis
    using score_of_leading_digit_run [OF tok d, of "[(''JD Match'', PStr ''45% - weak alignment'')]"
        "''JD Match''" "\<lambda>v. []" "''abc''"] tok
    by (simp add: decimal_value_45)
qed

text \<open>
  The claim as first stated fails: the validator raises on the sentinel, a string
  without a digit makes the score card raise instead of showing 0, and digits after the
  leading run are read too.
\<close>

theorem score_extraction_counterexample:
  "score_value_of (\<lambda>v. []) (PDict [(''JD Match'', PStr ''N/A'')]) ''JD Match'' = Inl InvalidLiteral
   \<and> display_score_card (\<lambda>v. []) (PStr ''no score'') (PStr ''N/A'') = Inl InvalidLiteral
   \<and> score_value_of (\<lambda>v. []) (PDict [(''JD Match'', PStr ''45.5%'')]) ''JD Match'' = Inr 455"
  by (simp add: score_value_of_dict py_str_def score_number_def first_token_def split_def isspace_def
      int_of_digits_def isdigit_def isdecimal_def decimal_value_def digit_val_def
      display_score_card_def score_or_zero_def and_then_def)











section \<open>Classification of the scores\<close>



section \<open>The result validator\<close>

lemma and_then_Inr [simp]: "and_then (Inr x) f = f x"
  by (simp add: and_then_def)

lemma and_then_Inl [simp]: "and_then (Inl e) f = Inl e"
  by (simp add: and_then_def)

lemma load_if_str_dict [simp]: "load_if_str loads (PDict kvs) = Inr (PDict kvs)"
  by (simp add: load_if_str_def)

lemma check_score_field_dict:
  "check_score_field repr (PDict kvs) f =
     (case map_of kvs f of
        None \<Rightarrow> Inr ()
      | Some v \<Rightarrow>
          (case score_number (py_str repr v) of
             Inl e \<Rightarrow> Inl e
           | Inr n \<Rightarrow> if n \<le> 100 then Inr () else Inl (ScoreOutOfRange f)))"
  using score_number_nonneg
  by (auto simp: check_score_field_def py_contains_def score_value_of_dict
      split: option.splits sum.splits)

lemma check_score_field_ok:
  "check_score_field repr (PDict kvs) f = Inr () \<longleftrightarrow>
     (case map_of kvs f of None \<Rightarrow> True | Some v \<Rightarrow> valid_score repr v)"
  using score_number_nonneg
  by (auto simp: check_score_field_dict valid_score_def split: option.splits sum.splits)

lemma process_dict:
  "process_ats_results loads repr (PDict kvs) =
     (case check_score_field repr (PDict kvs) ''JD Match'' of
        Inl e \<Rightarrow> Inl e
      | Inr u \<Rightarrow>
          (case check_score_field repr (PDict kvs) ''ATSScore'' of
             Inl e \<Rightarrow> Inl e
           | Inr u \<Rightarrow> Inr (PDict kvs)))"
  by (simp add: process_ats_results_def score_fields_def split: sum.splits)

lemma process_dict_ok:
  "process_ats_results loads repr (PDict kvs) = Inr (PDict kvs) \<longleftrightarrow>
     (\<forall>f\<in>set score_fields. case map_of kvs f of None \<Rightarrow> True | Some v \<Rightarrow> valid_score repr v)"
proof -
  have "process_ats_results loads repr (PDict kvs) = Inr (PDict kvs) \<longleftrightarrow>
     check_score_field repr (PDict kvs) ''JD Match'' = Inr ()
     \<and> check_score_field repr (PDict kvs) ''ATSScore'' = Inr ()"
    by (auto simp: process_dict split: sum.splits)
  then show ?thesis by (simp add: check_score_field_ok score_fields_def)
qed

lemma process_dict_Inr:
  "process_ats_results loads repr (PDict kvs) = Inr r \<Longrightarrow> r = PDict kvs"
  by (auto simp: process_dict split: sum.splits)

lemma check_score_field_errors:
  "check_score_field repr (PDict kvs) f = Inl e \<Longrightarrow>
     e = IndexError \<or> e = InvalidLiteral \<or> e = ScoreOutOfRange f"
  by (auto simp: check_score_field_dict score_number_def first_token_def int_of_digits_def Let_def
      split: option.splits sum.splits if_splits list.splits)

lemma process_dict_errors:
  assumes "process_ats_results loads repr (PDict kvs) = Inl e"
  shows "e = IndexError \<or> e = InvalidLiteral \<or> e = ScoreOutOfRange ''JD Match''
       \<or> e = ScoreOutOfRange ''ATSScore''"
  using assms check_score_field_errors [of repr kvs "''JD Match''"]
    check_score_field_errors [of repr kvs "''ATSScore''"]
  by (auto simp: process_dict split: sum.splits)

text \<open>
  Claim C2, as amended. For every input mapping from which "JD Match" or "ATSScore" is
  absent, the validator skips the absent field: it raises no missing-field error (and no
  key error), and it succeeds, returning the mapping, exactly when each score field that
  is present yields a number from 0 to 100. A mapping with neither field is accepted.
\<close>

theorem absent_score_field_is_skipped:
  assumes "map_of kvs ''JD Match'' = None \<or> map_of kvs ''ATSScore'' = None"
  shows "(process_ats_results loads repr (PDict kvs) = Inr (PDict kvs) \<longleftrightarrow>
            (\<forall>f\<in>set score_fields. case map_of kvs f of None \<Rightarrow> True | Some v \<Rightarrow> valid_score repr v))
    \<and> (\<forall>f. process_ats_results loads repr (PDict kvs) \<noteq> Inl (MissingRequiredField f))
    \<and> process_ats_results loads repr (PDict kvs) \<noteq> Inl KeyError
    \<and> (map_of kvs ''JD Match'' = None \<and> map_of kvs ''ATSScore'' = None
         \<longrightarrow> process_ats_results loads repr (PDict kvs) = Inr (PDict kvs))"
proof -
  have a: "process_ats_results loads repr (PDict kvs) = Inr (PDict kvs) \<longleftrightarrow>
            (\<forall>f\<in>set score_fields. case map_of kvs f of None \<Rightarrow> True | Some v \<Rightarrow> valid_score repr v)"
    by (rule process_dict_ok)
  have b: "\<forall>f. process_ats_results loads repr (PDict kvs) \<noteq> Inl (MissingRequiredField f)"
    using process_dict_errors [of loads repr kvs] by auto
  have c: "process_ats_results loads repr (PDict kvs) \<noteq> Inl KeyError"
    using process_dict_errors [of loads repr kvs] by auto
  have d: "map_of kvs ''JD Match'' = None \<and> map_of kvs ''ATSScore'' = None
         \<longrightarrow> process_ats_results loads repr (PDict kvs) = Inr (PDict kvs)"
    by (simp add: process_dict_ok score_fields_def)
  from a b c d show ?thesis by blast
qed

theorem absent_score_field_is_skipped_witness:
  "process_ats_results (\<lambda>s. None) (\<lambda>v. []) (PDict [(''ATSScore'', PStr ''82'')])
     = Inr (PDict [(''ATSScore'', PStr ''82'')])
   \<and> process_ats_results (\<lambda>s. None) (\<lambda>v. []) (PDict [(''Profile Summary'', PStr ''ok'')])
     = Inr (PDict [(''Profile Summary'', PStr ''ok'')])"
proof -
  have v: "valid_score (\<lambda>v. []) (PStr ''82'')"
    by (simp add: valid_score_def py_str_def score_number_def first_token_def split_def
        isspace_def int_of_digits_def isdigit_def isdecimal_def decimal_value_def digit_val_def)
  show ?thesis
    using absent_score_field_is_skipped [of "[(''ATSScore'', PStr ''82'')]" "\<lambda>s. None" "\<lambda>v. []"]
      absent_score_field_is_skipped [of "[(''Profile Summary'', PStr ''ok'')]" "\<lambda>s. None" "\<lambda>v. []"] v
    by (simp add: score_fields_def)
qed

text \<open>
  The claim as first stated fails: a mapping without "JD Match", and the empty mapping,
  are returned by the validator.
\<close>

theorem missing_field_counterexample:
  "process_ats_results (\<lambda>s. None) (\<lambda>v. []) (PDict [(''ATSScore'', PStr ''82'')])
     = Inr (PDict [(''ATSScore'', PStr ''82'')])
   \<and> process_ats_results (\<lambda>s. None) (\<lambda>v. []) (PDict []) = Inr (PDict [])"
  by (simp add: process_dict check_score_field_dict py_str_def score_number_def first_token_def
      split_def isspace_def int_of_digits_def isdigit_def isdecimal_def decimal_value_def
      digit_val_def)

text \<open>
  Claim C6, as amended. Every mapping with a score field ("JD Match" or "ATSScore") whose
  extracted number lies outside 0 to 100 is rejected. The two fields are checked in the
  order "JD Match", "ATSScore" and the first failure is the one raised: the error is a
  range error exactly when the offending field is "JD Match", or "JD Match" is absent, or
  a number can be read from "JD Match"; otherwise it is the extraction error of
  "JD Match". A mapping whose only score field is ATSScore = "150" raises the range error.
\<close>

theorem out_of_range_score_is_rejected:
  assumes "f \<in> set score_fields" and "map_of kvs f = Some v"
    and "score_number (py_str repr v) = Inr n" and "\<not> (0 \<le> n \<and> n \<le> 100)"
  shows "(\<exists>e. process_ats_results loads repr (PDict kvs) = Inl e)
    \<and> ((\<exists>g. process_ats_results loads repr (PDict kvs) = Inl (ScoreOutOfRange g)) \<longleftrightarrow>
          (f = ''JD Match'' \<or> map_of kvs ''JD Match'' = None
           \<or> (\<exists>m. score_value_of repr (PDict kvs) ''JD Match'' = Inr m)))
    \<and> (f = ''JD Match'' \<or> check_score_field repr (PDict kvs) ''JD Match'' = Inr ()
         \<longrightarrow> process_ats_results loads repr (PDict kvs) = Inl (ScoreOutOfRange f))
    \<and> process_ats_results loads repr (PDict [(''ATSScore'', PStr ''150'')])
         = Inl (ScoreOutOfRange ''ATSScore'')"
proof -
  have big: "100 < n" using assms(3,4) score_number_nonneg by fastforce
  have cf: "check_score_field repr (PDict kvs) f = Inl (ScoreOutOfRange f)"
    using assms(2,3) big by (simp add: check_score_field_dict)
  have f2: "f = ''JD Match'' \<or> f = ''ATSScore''" using assms(1) by (auto simp: score_fields_def)
  have p1: "\<exists>e. process_ats_results loads repr (PDict kvs) = Inl e"
    using cf f2 by (auto simp: process_dict split: sum.splits)
  have p3: "f = ''JD Match'' \<or> check_score_field repr (PDict kvs) ''JD Match'' = Inr ()
         \<longrightarrow> process_ats_results loads repr (PDict kvs) = Inl (ScoreOutOfRange f)"
    using cf f2 by (auto simp: process_dict split: sum.splits)
  have p2: "(\<exists>g. process_ats_results loads repr (PDict kvs) = Inl (ScoreOutOfRange g)) \<longleftrightarrow>
          (f = ''JD Match'' \<or> map_of kvs ''JD Match'' = None
           \<or> (\<exists>m. score_value_of repr (PDict kvs) ''JD Match'' = Inr m))"
  proof (cases "f = ''JD Match''")
    case True
    then show ?thesis using p3 by auto
  next
    case False
    then have fa: "f = ''ATSScore''" using f2 by simp
    show ?thesis
    proof (cases "map_of kvs ''JD Match''")
      case None
      then have "check_score_field repr (PDict kvs) ''JD Match'' = Inr ()"
        by (simp add: check_score_field_dict)
      then show ?thesis using p3 None by auto
    next
      case (Some jv)
      show ?thesis
      proof (cases "score_number (py_str repr jv)")
        case (Inl e)
        then have e: "e = IndexError \<or> e = InvalidLiteral"
          by (auto simp: score_number_def first_token_def int_of_digits_def Let_def
              split: sum.splits if_splits list.splits)
        have "process_ats_results loads repr (PDict kvs) = Inl e"
          using Some Inl by (simp add: process_dict check_score_field_dict)
        moreover have "\<not> (\<exists>m. score_value_of repr (PDict kvs) ''JD Match'' = Inr m)"
          using Some Inl by (simp add: score_value_of_dict)
        ultimately show ?thesis using e False Some by auto
      next
        case (Inr m)
        have sv: "score_value_of repr (PDict kvs) ''JD Match'' = Inr m"
          using Some Inr by (simp add: score_value_of_dict)
        have "\<exists>g. process_ats_results loads repr (PDict kvs) = Inl (ScoreOutOfRange g)"
        proof (cases "m \<le> 100")
          case True
          then have "check_score_field repr (PDict kvs) ''JD Match'' = Inr ()"
            using Some Inr by (simp add: check_score_field_dict)
          then show ?thesis using p3 by blast
        next
          case False
          then have "process_ats_results loads repr (PDict kvs) = Inl (ScoreOutOfRange ''JD Match'')"
            using Some Inr by (simp add: process_dict check_score_field_dict)
          then show ?thesis by blast
        qed
        then show ?thesis using sv by blast
      qed
    qed
  qed
  have p4: "process_ats_results loads repr (PDict [(''ATSScore'', PStr ''150'')])
         = Inl (ScoreOutOfRange ''ATSScore'')"
    by (simp add: process_dict check_score_field_dict py_str_def score_number_def first_token_def
        split_def isspace_def int_of_digits_def isdigit_def isdecimal_def decimal_value_def
        digit_val_def)
  from p1 p2 p3 p4 show ?thesis by blast
qed

theorem out_of_range_score_is_rejected_witness:
  "process_ats_results (\<lambda>s. None) (\<lambda>v. [])
     (PDict [(''JD Match'', PStr ''70% good''), (''ATSScore'', PStr ''150'')])
   = Inl (ScoreOutOfRange ''ATSScore'')"
proof -
  have f: "''ATSScore'' \<in> set score_fields" by (simp add: score_fields_def)
  have m: "map_of [(''JD Match'', PStr ''70% good''), (''ATSScore'', PStr ''150'')] ''ATSScore''
    = Some (PStr ''150'')" by simp
  have n: "score_number (py_str (\<lambda>v. []) (PStr ''150'')) = Inr 150"
    by (simp add: py_str_def score_number_def first_token_def split_def isspace_def
        int_of_digits_def isdigit_def isdecimal_def decimal_value_def digit_val_def)
  have o: "\<not> (0 \<le> (150::int) \<and> (150::int) \<le> 100)" by simp
  have j: "check_score_field (\<lambda>v. [])
      (PDict [(''JD Match'', PStr ''70% good''), (''ATSScore'', PStr ''150'')]) ''JD Match'' = Inr ()"
    by (simp add: check_score_field_dict py_str_def score_number_def first_token_def split_def
        isspace_def int_of_digits_def isdigit_def isdecimal_def decimal_value_def digit_val_def)
  show ?thesis
    using out_of_range_score_is_rejected [OF f m n o, of "\<lambda>s. None"] j by simp
qed

text \<open>
  The claim as first stated fails: with an unreadable "JD Match" before it, an ATSScore
  of "150" is rejected with the extraction error of "JD Match", not with a range error.
\<close>

theorem range_error_counterexample:
  "process_ats_results (\<lambda>s. None) (\<lambda>v. [])
     (PDict [(''JD Match'', PStr ''high''), (''ATSScore'', PStr ''150'')])
   = Inl InvalidLiteral"
  by (simp add: process_dict check_score_field_dict py_str_def score_number_def first_token_def
      split_def isspace_def int_of_digits_def isdigit_def isdecimal_def)

text \<open>
  Claim C9. When the validator succeeds on a mapping it returns that mapping, unchanged;
  validating the result again succeeds with the same result; the score fields present
  are in range; and every text that \<^verbatim>\<open>json.loads\<close> reads back as the mapping (its
  serialization) passes the validator and yields the same mapping.
\<close>

theorem validation_returns_mapping_unchanged:
  assumes "process_ats_results loads repr (PDict kvs) = Inr r"
  shows "r = PDict kvs
    \<and> process_ats_results loads repr r = Inr r
    \<and> (\<forall>f\<in>set score_fields. case map_of kvs f of None \<Rightarrow> True | Some v \<Rightarrow> valid_score repr v)
    \<and> (loads txt = Some (PDict kvs) \<longrightarrow>
         process_ats_results loads repr (PStr txt) = Inr (PDict kvs))"
proof -
  have r: "r = PDict kvs" using assms by (rule process_dict_Inr)
  then have ok: "process_ats_results loads repr (PDict kvs) = Inr (PDict kvs)" using assms by simp
  have inv: "\<forall>f\<in>set score_fields. case map_of kvs f of None \<Rightarrow> True | Some v \<Rightarrow> valid_score repr v"
    using ok by (simp only: process_dict_ok)
  have rt: "loads txt = Some (PDict kvs) \<longrightarrow>
         process_ats_results loads repr (PStr txt) = Inr (PDict kvs)"
    using ok by (simp add: process_ats_results_def load_if_str_def)
  from r ok inv rt show ?thesis by simp
qed

theorem validation_returns_mapping_unchanged_witness:
  \<open>process_ats_results
     (\<lambda>s. if s = ''{"JD Match": "70% good", "ATSScore": "82"}''
          then Some (PDict [(''JD Match'', PStr ''70% good''), (''ATSScore'', PStr ''82'')]) else None)
     (\<lambda>v. []) (PDict [(''JD Match'', PStr ''70% good''), (''ATSScore'', PStr ''82'')])
   = Inr (PDict [(''JD Match'', PStr ''70% good''), (''ATSScore'', PStr ''82'')])
   \<and> process_ats_results
     (\<lambda>s. if s = ''{"JD Match": "70% good", "ATSScore": "82"}''
          then Some (PDict [(''JD Match'', PStr ''70% good''), (''ATSScore'', PStr ''82'')]) else None)
     (\<lambda>v. []) (PStr ''{"JD Match": "70% good", "ATSScore": "82"}'')
   = Inr (PDict [(''JD Match'', PStr ''70% good''), (''ATSScore'', PStr ''82'')])\<close>
proof -
  have ok: \<open>process_ats_results
     (\<lambda>s. if s = ''{"JD Match": "70% good", "ATSScore": "82"}''
          then Some (PDict [(''JD Match'', PStr ''70% good''), (''ATSScore'', PStr ''82'')]) else None)
     (\<lambda>v. []) (PDict [(''JD Match'', PStr ''70% good''), (''ATSScore'', PStr ''82'')])
   = Inr (PDict [(''JD Match'', PStr ''70% good''), (''ATSScore'', PStr ''82'')])\<close>
    by (simp add: process_dict check_score_field_dict py_str_def score_number_def first_token_def
        split_def isspace_def int_of_digits_def isdigit_def isdecimal_def decimal_value_def
        digit_val_def)
  show ?thesis
    using validation_returns_mapping_unchanged [OF ok,
        of \<open>''{"JD Match": "70% good", "ATSScore": "82"}''\<close>] ok
    by simp
qed

section \<open>The action plan\<close>

lemma py_get_dict: "py_get (PDict kvs) k d = Inr (field_or kvs k d)"
  by (simp add: py_get_def field_or_def)

lemma get_nested_dict:
  "get_nested (PDict kvs) parent k d =
     (case map_of kvs parent of
        None \<Rightarrow> Inr d
      | Some (PDict sub) \<Rightarrow> Inr (field_or sub k d)
      | Some _ \<Rightarrow> Inl AttributeError)"
  by (simp add: get_nested_def py_get_def and_then_def field_or_def split: option.splits pyval.splits)

lemma get_nested_ok:
  "absent_or_dict kvs parent \<Longrightarrow> get_nested (PDict kvs) parent k d = Inr (nested_field_or kvs parent k d)"
  by (auto simp: get_nested_dict absent_or_dict_def is_dict_def nested_field_or_def
      split: option.splits pyval.splits)

lemma get_nested_fail:
  "\<not> absent_or_dict kvs parent \<Longrightarrow> get_nested (PDict kvs) parent k d = Inl AttributeError"
  by (auto simp: get_nested_dict absent_or_dict_def is_dict_def split: option.splits pyval.splits)

text \<open>
  Claim C5. For every mapping whose "Recommendations" and "SkillsAlignment" fields, when
  present, are mappings, the action plan is returned and its six fields are projections:
  \<open>missing_keywords\<close> is "MissingKeywords", \<open>immediate_actions\<close> and
  \<open>keyword_integration\<close> are "HighPriority" and "KeywordOptimization" of
  "Recommendations", \<open>skill_gaps\<close> is "GapAnalysis" of "SkillsAlignment",
  \<open>red_flags_to_fix\<close> is "RedFlags" and \<open>competitive_edge\<close> is "CompetitiveAdvantage";
  each is the empty list (the empty string for \<open>skill_gaps\<close> and \<open>competitive_edge\<close>)
  when the field or its parent record is absent.
\<close>

theorem action_plan_projection:
  assumes "absent_or_dict kvs ''Recommendations''" and "absent_or_dict kvs ''SkillsAlignment''"
  shows "\<exists>p. generate_action_plan loads (PDict kvs) = Inr p
    \<and> p = \<lparr>immediate_actions = nested_field_or kvs ''Recommendations'' ''HighPriority'' (PList []),
          keyword_integration = nested_field_or kvs ''Recommendations'' ''KeywordOptimization'' (PList []),
          missing_keywords = field_or kvs ''MissingKeywords'' (PList []),
          skill_gaps = nested_field_or kvs ''SkillsAlignment'' ''GapAnalysis'' (PStr []),
          red_flags_to_fix = field_or kvs ''RedFlags'' (PList []),
          competitive_edge = field_or kvs ''CompetitiveAdvantage'' (PStr [])\<rparr>
    \<and> (map_of kvs ''MissingKeywords'' = Some mk \<longrightarrow> missing_keywords p = mk)
    \<and> (map_of kvs ''Recommendations'' = None \<longrightarrow>
          immediate_actions p = PList [] \<and> keyword_integration p = PList [])"
  using assms
  by (simp add: generate_action_plan_def get_nested_ok py_get_dict field_or_def nested_field_or_def)

theorem action_plan_projection_witness:
  "generate_action_plan (\<lambda>s. None)
     (PDict [(''MissingKeywords'', PList [PStr ''Docker'', PStr ''Kubernetes'']),
             (''Recommendations'', PDict [(''HighPriority'', PList [PStr ''Add metrics''])]),
             (''CompetitiveAdvantage'', PStr ''Team leadership'')])
   = Inr \<lparr>immediate_actions = PList [PStr ''Add metrics''],
          keyword_integration = PList [],
          missing_keywords = PList [PStr ''Docker'', PStr ''Kubernetes''],
          skill_gaps = PStr [],
          red_flags_to_fix = PList [],
          competitive_edge = PStr ''Team leadership''\<rparr>"
proof -
  have r: "absent_or_dict [(''MissingKeywords'', PList [PStr ''Docker'', PStr ''Kubernetes'']),
             (''Recommendations'', PDict [(''HighPriority'', PList [PStr ''Add metrics''])]),
             (''CompetitiveAdvantage'', PStr ''Team leadership'')] ''Recommendations''"
    by (simp add: absent_or_dict_def is_dict_def)
  have s: "absent_or_dict [(''MissingKeywords'', PList [PStr ''Docker'', PStr ''Kubernetes'']),
             (''Recommendations'', PDict [(''HighPriority'', PList [PStr ''Add metrics''])]),
             (''CompetitiveAdvantage'', PStr ''Team leadership'')] ''SkillsAlignment''"
    by (simp add: absent_or_dict_def is_dict_def)
  show ?thesis
    using action_plan_projection [OF r s, of "\<lambda>s. None" "PList [PStr ''Docker'', PStr ''Kubernetes'']"]
    by (simp add: field_or_def nested_field_or_def)
qed

text \<open>
  Claim C3, as amended. On a mapping the action plan deriver returns a plan exactly when
  the "Recommendations" and "SkillsAlignment" fields are each absent or a mapping; when
  one of them is present and not a mapping the call fails (an attribute error, raised
  again as an exception). A string input that does not parse as JSON fails with the JSON
  decoding error.
\<close>

theorem action_plan_failures:
  "((\<exists>p. generate_action_plan loads (PDict kvs) = Inr p)
      \<longleftrightarrow> absent_or_dict kvs ''Recommendations'' \<and> absent_or_dict kvs ''SkillsAlignment'')
   \<and> (generate_action_plan loads (PDict kvs) = Inl AttributeError
      \<longleftrightarrow> \<not> (absent_or_dict kvs ''Recommendations'' \<and> absent_or_dict kvs ''SkillsAlignment''))
   \<and> (loads s = None \<longrightarrow> generate_action_plan loads (PStr s) = Inl JSONDecodeError)"
proof -
  have a: "absent_or_dict kvs ''Recommendations'' \<Longrightarrow> absent_or_dict kvs ''SkillsAlignment''
    \<Longrightarrow> \<exists>p. generate_action_plan loads (PDict kvs) = Inr p"
    by (simp add: generate_action_plan_def get_nested_ok py_get_dict)
  have b: "\<not> absent_or_dict kvs ''Recommendations'' \<Longrightarrow> generate_action_plan loads (PDict kvs) = Inl AttributeError"
    by (simp add: generate_action_plan_def get_nested_fail)
  have c: "absent_or_dict kvs ''Recommendations'' \<Longrightarrow> \<not> absent_or_dict kvs ''SkillsAlignment''
    \<Longrightarrow> generate_action_plan loads (PDict kvs) = Inl AttributeError"
    by (simp add: generate_action_plan_def get_nested_ok get_nested_fail py_get_dict)
  have d: "loads s = None \<longrightarrow> generate_action_plan loads (PStr s) = Inl JSONDecodeError"
    by (simp add: generate_action_plan_def load_if_str_def)
  show ?thesis using a b c d by (metis sum.distinct(1))
qed

theorem action_plan_failures_witness:
  "(\<exists>p. generate_action_plan (\<lambda>s. None) (PDict [(''MissingKeywords'', PList [PStr ''Docker''])]) = Inr p)
   \<and> generate_action_plan (\<lambda>s. None) (PDict [(''SkillsAlignment'', PNone)]) = Inl AttributeError
   \<and> generate_action_plan (\<lambda>s. None) (PStr ''not json'') = Inl JSONDecodeError"
  using action_plan_failures [of "\<lambda>s. None" "[(''MissingKeywords'', PList [PStr ''Docker''])]" "''not json''"]
    action_plan_failures [of "\<lambda>s. None" "[(''SkillsAlignment'', PNone)]" "''not json''"]
  by (simp add: absent_or_dict_def is_dict_def)

text \<open>
  The claim as first stated fails: a mapping whose "Recommendations" field is a list is a
  mapping input on which the call raises.
\<close>

theorem action_plan_counterexample:
  "generate_action_plan (\<lambda>s. None)
     (PDict [(''Recommendations'', PList [PStr ''Add keywords'']),
             (''MissingKeywords'', PList [PStr ''Docker''])])
   = Inl AttributeError"
  by (simp add: generate_action_plan_def get_nested_def py_get_def load_if_str_def and_then_def)

section \<open>Recovery of a JSON region from the model's reply\<close>

lemma upto_last_close_eq:
  "upto_last_close s =
     (if CHR ''}'' \<in> set s then Some (rev (dropWhile (\<lambda>x. x \<noteq> CHR ''}'') (rev s))) else None)"
proof (induction s)
  case Nil
  show ?case by simp
next
  case (Cons c cs)
  show ?case
  proof (cases "CHR ''}'' \<in> set cs")
    case True
    then have "dropWhile (\<lambda>x. x \<noteq> CHR ''}'') (rev cs @ [c])
        = dropWhile (\<lambda>x. x \<noteq> CHR ''}'') (rev cs) @ [c]"
      by (intro dropWhile_append1[of "CHR ''}''"]) auto
    with True Cons show ?thesis by simp
  next
    case False
    then have d: "dropWhile (\<lambda>x. x \<noteq> CHR ''}'') (rev cs @ [c]) = dropWhile (\<lambda>x. x \<noteq> CHR ''}'') [c]"
      by (intro dropWhile_append2) auto
    have n: "upto_last_close cs = None" using False Cons by simp
    show ?thesis
    proof (cases "c = CHR ''}''")
      case True
      have "upto_last_close (c # cs) = Some [c]" using n True by simp
      moreover have "rev (dropWhile (\<lambda>x. x \<noteq> CHR ''}'') (rev (c # cs))) = [c]"
        using d True by simp
      ultimately show ?thesis using True by simp
    next
      case notc: False
      then show ?thesis using n False by simp
    qed
  qed
qed

lemma search_braces_no_close: "CHR ''}'' \<notin> set s \<Longrightarrow> search_braces s = None"
  by (induction s) (auto simp: upto_last_close_eq)

lemma search_braces_eq:
  "search_braces s =
     (case dropWhile (\<lambda>x. x \<noteq> CHR ''{'') s of
        [] \<Rightarrow> None
      | c # cs \<Rightarrow> (case upto_last_close cs of Some r \<Rightarrow> Some (c # r) | None \<Rightarrow> None))"
proof (induction s)
  case Nil
  show ?case by simp
next
  case (Cons c cs)
  show ?case
  proof (cases "c = CHR ''{''")
    case True
    show ?thesis
    proof (cases "upto_last_close cs")
      case None
      then have "CHR ''}'' \<notin> set cs" by (simp add: upto_last_close_eq split: if_splits)
      then have "search_braces cs = None" by (rule search_braces_no_close)
      with True None show ?thesis by simp
    next
      case (Some r)
      with True show ?thesis by simp
    qed
  next
    case False
    with Cons show ?thesis by simp
  qed
qed

lemma rev_dropWhile_rev_take:
  "rev (dropWhile P (rev cs)) = take (length cs - length (takeWhile P (rev cs))) cs"
proof -
  have "rev cs = takeWhile P (rev cs) @ dropWhile P (rev cs)" by simp
  then have "cs = rev (dropWhile P (rev cs)) @ rev (takeWhile P (rev cs))"
    by (metis rev_append rev_rev_ident)
  then have "take (length (dropWhile P (rev cs))) cs = rev (dropWhile P (rev cs))"
    by (metis append_eq_conv_conj length_rev)
  moreover have "length (dropWhile P (rev cs)) = length cs - length (takeWhile P (rev cs))"
    by (metis add_diff_cancel_left' length_append length_rev takeWhile_dropWhile_id)
  ultimately show ?thesis by simp
qed

lemma find_first_decomp:
  assumes "c \<notin> set pre"
  shows "find_first c (pre @ c # cs) = Some (length pre)"
proof -
  have "\<forall>x\<in>set pre. x \<noteq> c" using assms by auto
  then have "takeWhile (\<lambda>x. x \<noteq> c) pre = pre" by simp
  then have "takeWhile (\<lambda>x. x \<noteq> c) (pre @ c # cs) = pre" by (simp add: takeWhile_tail)
  then show ?thesis by (simp add: find_first_def)
qed

lemma takeWhile_neq_less:
  "c \<in> set xs \<Longrightarrow> length (takeWhile (\<lambda>x. x \<noteq> c) xs) < length xs"
  by (induction xs) auto

lemma find_last_inside:
  assumes "c \<in> set cs"
  shows "find_last c (pre @ b # cs)
    = Some (length pre + length cs - length (takeWhile (\<lambda>x. x \<noteq> c) (rev cs)))"
proof -
  have tk: "takeWhile (\<lambda>x. x \<noteq> c) (rev (pre @ b # cs)) = takeWhile (\<lambda>x. x \<noteq> c) (rev cs)"
    using assms by simp
  have "c \<in> set (pre @ b # cs)" using assms by simp
  then have "find_last c (pre @ b # cs)
    = Some (length (pre @ b # cs) - 1 - length (takeWhile (\<lambda>x. x \<noteq> c) (rev cs)))"
    unfolding find_last_def tk by (simp only: if_True)
  then show ?thesis by simp
qed

lemma takeWhile_rev_less:
  assumes "c \<in> set cs"
  shows "length (takeWhile (\<lambda>x. x \<noteq> c) (rev cs)) < length cs"
proof -
  have "c \<in> set (rev cs)" using assms by simp
  then have "length (takeWhile (\<lambda>x. x \<noteq> c) (rev cs)) < length (rev cs)"
    by (rule takeWhile_neq_less)
  then show ?thesis by simp
qed

lemma find_last_outside:
  assumes "c \<notin> set cs" "c \<noteq> b" "c \<in> set pre"
  shows "\<exists>j. find_last c (pre @ b # cs) = Some j \<and> j < length pre"
proof -
  have "\<And>x. x \<in> set (rev cs) \<Longrightarrow> x \<noteq> c" using assms(1) by auto
  then have "takeWhile (\<lambda>x. x \<noteq> c) (rev cs @ b # rev pre)
      = rev cs @ takeWhile (\<lambda>x. x \<noteq> c) (b # rev pre)"
    by (rule takeWhile_append2)
  then have tk: "takeWhile (\<lambda>x. x \<noteq> c) (rev (pre @ b # cs))
      = rev cs @ b # takeWhile (\<lambda>x. x \<noteq> c) (rev pre)"
    using assms(2) by simp
  have "c \<in> set (pre @ b # cs)" using assms(3) by simp
  then have "find_last c (pre @ b # cs)
    = Some (length (pre @ b # cs) - 1 - length (rev cs @ b # takeWhile (\<lambda>x. x \<noteq> c) (rev pre)))"
    unfolding find_last_def tk by (simp only: if_True)
  moreover have "length (pre @ b # cs) - 1 - length (rev cs @ b # takeWhile (\<lambda>x. x \<noteq> c) (rev pre))
      < length pre"
    using assms(3) by (cases pre) auto
  ultimately show ?thesis by simp
qed

lemma brace_region_decomp:
  assumes "CHR ''{'' \<notin> set pre"
  shows "brace_region (pre @ CHR ''{'' # cs)
    = (case upto_last_close cs of Some r \<Rightarrow> Some (CHR ''{'' # r) | None \<Rightarrow> None)"
proof (cases "CHR ''}'' \<in> set cs")
  case True
  define k where "k = length (takeWhile (\<lambda>x. x \<noteq> CHR ''}'') (rev cs))"
  have klt: "k < length cs" unfolding k_def using True by (rule takeWhile_rev_less)
  have ff: "find_first (CHR ''{'') (pre @ CHR ''{'' # cs) = Some (length pre)"
    using assms by (rule find_first_decomp)
  have fl: "find_last (CHR ''}'') (pre @ CHR ''{'' # cs) = Some (length pre + length cs - k)"
    unfolding k_def using True by (rule find_last_inside)
  have u: "upto_last_close cs = Some (take (length cs - k) cs)"
    using True by (simp add: upto_last_close_eq rev_dropWhile_rev_take k_def)
  have "length pre + length cs - k + 1 - length pre = Suc (length cs - k)"
    using klt by simp
  then have "brace_region (pre @ CHR ''{'' # cs) = Some (CHR ''{'' # take (length cs - k) cs)"
    unfolding brace_region_def ff fl using klt by simp
  then show ?thesis unfolding u by simp
next
  case False
  then have u: "upto_last_close cs = None" by (simp add: upto_last_close_eq)
  have ff: "find_first (CHR ''{'') (pre @ CHR ''{'' # cs) = Some (length pre)"
    using assms by (rule find_first_decomp)
  have "brace_region (pre @ CHR ''{'' # cs) = None"
  proof (cases "CHR ''}'' \<in> set pre")
    case inpre: True
    obtain j where "find_last (CHR ''}'') (pre @ CHR ''{'' # cs) = Some j" "j < length pre"
      using find_last_outside [OF False _ inpre, of "CHR ''{''"] by auto
    then show ?thesis unfolding brace_region_def ff by simp
  next
    case nopre: False
    then have "find_last (CHR ''}'') (pre @ CHR ''{'' # cs) = None"
      using False by (simp add: find_last_def)
    then show ?thesis unfolding brace_region_def ff by simp
  qed
  then show ?thesis unfolding u by simp
qed

lemma brace_region_eq:
  "brace_region s =
     (case dropWhile (\<lambda>x. x \<noteq> CHR ''{'') s of
        [] \<Rightarrow> None
      | c # cs \<Rightarrow> (case upto_last_close cs of Some r \<Rightarrow> Some (c # r) | None \<Rightarrow> None))"
proof (cases "dropWhile (\<lambda>x. x \<noteq> CHR ''{'') s")
  case Nil
  then have "CHR ''{'' \<notin> set s" by auto
  then have "brace_region s = None" by (simp add: brace_region_def find_first_def)
  then show ?thesis by (simp only: Nil list.case)
next
  case (Cons c cs)
  have c: "c = CHR ''{''" using hd_dropWhile [of "\<lambda>x. x \<noteq> CHR ''{''" s] Cons by simp
  have npre: "CHR ''{'' \<notin> set (takeWhile (\<lambda>x. x \<noteq> CHR ''{'') s)"
    by (auto dest: set_takeWhileD)
  have "s = takeWhile (\<lambda>x. x \<noteq> CHR ''{'') s @ CHR ''{'' # cs"
    using Cons c takeWhile_dropWhile_id [of "\<lambda>x. x \<noteq> CHR ''{''" s] by simp
  then have "brace_region s = brace_region (takeWhile (\<lambda>x. x \<noteq> CHR ''{'') s @ CHR ''{'' # cs)"
    by simp
  also have "\<dots> = (case upto_last_close cs of Some r \<Rightarrow> Some (CHR ''{'' # r) | None \<Rightarrow> None)"
    using npre by (rule brace_region_decomp)
  finally show ?thesis by (simp only: Cons c list.case)
qed

text \<open>
  Claim C7. When the text of the reply fails the strict JSON parse, the model client
  returns, with no further validation, the substring of the text from its first opening
  brace to its last closing brace (the greedy match, which may span lines); when the
  text has no such region, the call fails with the error of an unparsable response. The
  parse is attempted on a reply that has text.
\<close>

theorem recovery_returns_brace_region:
  assumes "text \<noteq> []" and "loads text = None"
  shows "get_gemini_response loads (Some text) =
     (case brace_region text of Some m \<Rightarrow> Inr m | None \<Rightarrow> Inl NoJsonFound)"
  using assms by (simp add: get_gemini_response_def search_braces_eq brace_region_eq)

theorem recovery_returns_brace_region_witness:
  \<open>get_gemini_response (\<lambda>s. None)
      (Some (''Some preamble text {"JD Match": "70",'' @ [CHR 0x0A] @ '' "ATSScore": "82"} trailing''))
     = Inr (''{"JD Match": "70",'' @ [CHR 0x0A] @ '' "ATSScore": "82"}'')
   \<and> get_gemini_response (\<lambda>s. None) (Some ''} no region {'') = Inl NoJsonFound\<close>
proof -
  have r1: \<open>brace_region (''Some preamble text {"JD Match": "70",'' @ [CHR 0x0A] @ '' "ATSScore": "82"} trailing'')
      = Some (''{"JD Match": "70",'' @ [CHR 0x0A] @ '' "ATSScore": "82"}'')\<close>
    by (simp add: brace_region_def find_first_def find_last_def)
  have r2: "brace_region ''} no region {'' = None"
    by (simp add: brace_region_def find_first_def find_last_def)
  show ?thesis
    using recovery_returns_brace_region
        [of \<open>''Some preamble text {"JD Match": "70",'' @ [CHR 0x0A] @ '' "ATSScore": "82"} trailing''\<close>
          "\<lambda>s. None"]
      recovery_returns_brace_region [of "''} no region {''" "\<lambda>s. None"] r1 r2
    by simp
qed

section \<open>The prompt builder\<close>

text \<open>
  Claim C4 asks that the prompt builder reject an input that is empty after trimming
  whitespace, a whitespace-only input in particular. The function tests the inputs
  before it trims them: a resume of three spaces passes the test, is trimmed to the
  empty string, and the template is returned with an empty resume in it.
\<close>

theorem whitespace_only_resume_is_accepted:
  "strip ''   '' = []
   \<and> prepare_prompt ''   '' ''Data engineer''
       = Inr (prompt_before_resume @ [] @ prompt_between @ ''Data engineer'' @ prompt_after_job)"
  by (simp add: prepare_prompt_def strip_def isspace_def)

section \<open>Agreement of the three extraction sites\<close>






end
